theory Spec2Isabelle
  imports Main
begin

section \<open>Strings\<close>

text \<open>
  The program works on Python \<open>str\<close> values. A document or a question is modelled as a
  \<^typ>\<open>string\<close> whose characters are the code points U+0000 to U+00FF, so that
  \<^const>\<open>length\<close> is Python's \<open>len\<close>. The string methods below follow Python on
  that range. The pictographs of the program's fixed output texts lie outside it; they
  are only ever emitted, never measured or searched, and are written as their UTF-8
  bytes.
\<close>

definition isspace :: "char \<Rightarrow> bool" where
  "isspace c = (of_char c \<in> set [9, 10, 11, 12, 13, 28, 29, 30, 31, 32, 133, 160 :: nat])"

definition lower_char :: "char \<Rightarrow> char" where
  "lower_char c =
     (let n = (of_char c :: nat)
      in if 65 \<le> n \<and> n \<le> 90 then char_of (n + 32)
         else if 192 \<le> n \<and> n \<le> 214 then char_of (n + 32)
         else if 216 \<le> n \<and> n \<le> 222 then char_of (n + 32)
         else c)"

definition lower :: "string \<Rightarrow> string" where
  "lower s = map lower_char s"

definition strip :: "string \<Rightarrow> string" where
  "strip s = dropWhile isspace (rev (dropWhile isspace (rev s)))"

definition strip_chars :: "string \<Rightarrow> string \<Rightarrow> string" where
  "strip_chars cs s =
     dropWhile (\<lambda>c. c \<in> set cs) (rev (dropWhile (\<lambda>c. c \<in> set cs) (rev s)))"

definition nl :: char where
  "nl = CHR 0x0A"

text \<open>\<open>s.split('\n')\<close>: the pieces between line feeds; always at least one piece.\<close>

fun split_nl :: "string \<Rightarrow> string list" where
  "split_nl [] = [[]]"
| "split_nl (c # cs) =
     (if c = nl then [] # split_nl cs
      else (case split_nl cs of [] \<Rightarrow> [[c]] | l # ls \<Rightarrow> (c # l) # ls))"

text \<open>\<open>s.split()\<close>: the maximal runs of characters that are not white space.\<close>

fun words_from :: "string \<Rightarrow> string \<Rightarrow> string list" where
  "words_from w [] = (if w = [] then [] else [w])"
| "words_from w (c # cs) =
     (if isspace c then (if w = [] then words_from [] cs else w # words_from [] cs)
      else words_from (w @ [c]) cs)"

definition split_ws :: "string \<Rightarrow> string list" where
  "split_ws s = words_from [] s"

fun startswith :: "string \<Rightarrow> string \<Rightarrow> bool" where
  "startswith [] s = True"
| "startswith (p # ps) [] = False"
| "startswith (p # ps) (c # cs) = (p = c \<and> startswith ps cs)"

text \<open>\<open>sub in s\<close> on strings.\<close>

fun str_in :: "string \<Rightarrow> string \<Rightarrow> bool" where
  "str_in sub [] = (sub = [])"
| "str_in sub (c # cs) = (startswith sub (c # cs) \<or> str_in sub cs)"

text \<open>\<open>s.find(sub)\<close>: the index of the first occurrence, or \<open>-1\<close>.\<close>

fun str_find :: "string \<Rightarrow> string \<Rightarrow> int" where
  "str_find sub [] = (if sub = [] then 0 else - 1)"
| "str_find sub (c # cs) =
     (if startswith sub (c # cs) then 0
      else (let k = str_find sub cs in if k < 0 then - 1 else k + 1))"

text \<open>\<open>s[k:]\<close>, a negative \<open>k\<close> counting from the end.\<close>

definition slice_from :: "int \<Rightarrow> string \<Rightarrow> string" where
  "slice_from k s =
     (if 0 \<le> k then drop (nat k) s else drop (length s - nat (- k)) s)"

fun join :: "string \<Rightarrow> string list \<Rightarrow> string" where
  "join sep [] = []"
| "join sep [x] = x"
| "join sep (x # y # ys) = x @ sep @ join sep (y # ys)"

text \<open>
  \<open>re.search(pattern, s)\<close> for the patterns of this program, each an alternation
  \<open>w1|w2|...\<close> of plain words: some alternative occurs in \<open>s\<close>. The same function
  models \<open>any(w in s for w in ws)\<close>.
\<close>

definition any_in :: "string list \<Rightarrow> string \<Rightarrow> bool" where
  "any_in ws s = list_ex (\<lambda>w. str_in w s) ws"

section \<open>Structure segmentation\<close>

datatype section_name =
  Abstract | Introduction | Methodology | Results | Discussion | Conclusion | References

text \<open>
  The dictionary \<open>sections\<close>: the keys \<open>title\<close> and \<open>authors\<close> hold a string, the
  seven section keys hold a list of lines. All nine keys exist from the start.
\<close>

record sections =
  title :: string
  authors :: string
  bufs :: "section_name \<Rightarrow> string list"

definition empty_sections :: sections where
  "empty_sections = \<lparr>title = [], authors = [], bufs = (\<lambda>_. [])\<rparr>"

definition section_patterns :: "(section_name \<times> string list) list" where
  "section_patterns =
     [(Abstract, [''abstract'', ''summary'']),
      (Introduction, [''introduction'', ''background'', ''motivation'']),
      (Methodology,
         [''method'', ''methodology'', ''approach'', ''experiment'', ''procedure'', ''materials'']),
      (Results, [''result'', ''finding'', ''outcome'', ''data'', ''experiment'']),
      (Discussion, [''discussion'', ''analysis'', ''interpretation'']),
      (Conclusion, [''conclusion'', ''concluding'', ''summary'']),
      (References, [''reference'', ''bibliography'', ''citation''])]"

definition indicators :: "string list" where
  "indicators = [''university'', ''institute'', ''department'', ''college'', ''@'', ''email'']"

text \<open>
  \<open>lines = [line.strip() for line in text.split('\n') if line.strip()]\<close>
\<close>

definition doc_lines :: "string \<Rightarrow> string list" where
  "doc_lines text = map strip (filter (\<lambda>l. strip l \<noteq> []) (split_nl text))"

text \<open>
  The scan over \<open>section_patterns.items()\<close> for one line: the first pattern that is
  found in the lowercased line, the line being shorter than 150, sets
  \<open>current_section\<close> and leaves the scan (\<open>break\<close>).
\<close>

fun scan_patterns ::
  "(section_name \<times> string list) list \<Rightarrow> string \<Rightarrow> section_name option \<Rightarrow> section_name option" where
  "scan_patterns [] line cur = cur"
| "scan_patterns ((s, pat) # ps) line cur =
     (if any_in pat (lower line) \<and> length line < 150 then Some s
      else scan_patterns ps line cur)"

text \<open>The two branches of the title/authors test of line \<open>i\<close>.\<close>

definition title_branch :: "nat \<Rightarrow> string \<Rightarrow> bool" where
  "title_branch i line = (i = 0 \<and> 10 < length line \<and> length line < 200)"

definition authors_branch :: "nat \<Rightarrow> string \<Rightarrow> bool" where
  "authors_branch i line =
     (\<not> title_branch i line \<and> i < 5 \<and> any_in indicators (lower line))"

record loop_state =
  secs :: sections
  current_section :: "section_name option"

definition add_content :: "section_name option \<Rightarrow> string \<Rightarrow> sections \<Rightarrow> sections" where
  "add_content cur line ss =
     (case cur of
        None \<Rightarrow> ss
      | Some s \<Rightarrow>
          if 20 < length line then
            (if length (bufs ss s) < 50 then ss\<lparr>bufs := (bufs ss)(s := bufs ss s @ [line])\<rparr>
             else ss)
          else ss)"

text \<open>The body of the loop \<open>for i, line in enumerate(lines)\<close>.\<close>

definition step :: "nat \<Rightarrow> string \<Rightarrow> loop_state \<Rightarrow> loop_state" where
  "step i line st =
     (let ss1 = (if title_branch i line then (secs st)\<lparr>title := line\<rparr>
                 else if authors_branch i line then (secs st)\<lparr>authors := line\<rparr>
                 else secs st);
          cur = scan_patterns section_patterns line (current_section st)
      in \<lparr>secs = add_content cur line ss1, current_section = cur\<rparr>)"

fun run_lines :: "nat \<Rightarrow> string list \<Rightarrow> loop_state \<Rightarrow> loop_state" where
  "run_lines i [] st = st"
| "run_lines i (line # ls) st = run_lines (Suc i) ls (step i line st)"

definition init_state :: loop_state where
  "init_state = \<lparr>secs = empty_sections, current_section = None\<rparr>"

definition analyze_paper_structure :: "string \<Rightarrow> sections" where
  "analyze_paper_structure text = secs (run_lines 0 (doc_lines text) init_state)"

text \<open>
  The sections whose pattern occurs in the lowercased line, in the order of
  \<open>section_patterns\<close>. The scan itself does not use this list; the properties of the
  scan are stated with it.
\<close>

definition matching_sections :: "string \<Rightarrow> section_name list" where
  "matching_sections line =
     map fst (filter (\<lambda>(s, pat). any_in pat (lower line)) section_patterns)"

text \<open>The lines of a document, with their index, on which each branch assigns.\<close>

definition title_assignments :: "string list \<Rightarrow> (nat \<times> string) list" where
  "title_assignments ls = filter (\<lambda>(i, l). title_branch i l) (enumerate 0 ls)"

definition authors_assignments :: "string list \<Rightarrow> (nat \<times> string) list" where
  "authors_assignments ls = filter (\<lambda>(i, l). authors_branch i l) (enumerate 0 ls)"

section \<open>Summary generation\<close>

definition pic_page :: string where
  "pic_page = [CHR 0xF0, CHR 0x9F, CHR 0x93, CHR 0x84]"

definition pic_people :: string where
  "pic_people = [CHR 0xF0, CHR 0x9F, CHR 0x91, CHR 0xA5]"

definition pic_glass :: string where
  "pic_glass = [CHR 0xF0, CHR 0x9F, CHR 0x94, CHR 0x8D]"

definition pic_bullet :: string where
  "pic_bullet = [CHR 0xE2, CHR 0x80, CHR 0xA2]"

definition pic_book :: string where
  "pic_book = [CHR 0xF0, CHR 0x9F, CHR 0x93, CHR 0x96]"

definition pic_robot :: string where
  "pic_robot = [CHR 0xF0, CHR 0x9F, CHR 0xA4, CHR 0x96]"

definition pic_memo :: string where
  "pic_memo = [CHR 0xF0, CHR 0x9F, CHR 0x93, CHR 0x9D]"

definition pic_microscope :: string where
  "pic_microscope = [CHR 0xF0, CHR 0x9F, CHR 0x94, CHR 0xAC]"

definition pic_chart :: string where
  "pic_chart = [CHR 0xF0, CHR 0x9F, CHR 0x93, CHR 0x8A]"

definition pic_bulb :: string where
  "pic_bulb = [CHR 0xF0, CHR 0x9F, CHR 0x92, CHR 0xA1]"

definition pic_target :: string where
  "pic_target = [CHR 0xF0, CHR 0x9F, CHR 0x8E, CHR 0xAF]"

definition pic_books :: string where
  "pic_books = [CHR 0xF0, CHR 0x9F, CHR 0x93, CHR 0x9A]"

definition pic_question :: string where
  "pic_question = [CHR 0xE2, CHR 0x9D, CHR 0x93]"

definition pic_cross :: string where
  "pic_cross = [CHR 0xE2, CHR 0x9D, CHR 0x8C]"

definition pic_check :: string where
  "pic_check = [CHR 0xE2, CHR 0x9C, CHR 0x85]"

definition pic_folder :: string where
  "pic_folder = [CHR 0xF0, CHR 0x9F, CHR 0x93, CHR 0x81]"

text \<open>The title part: \<open>sections['title']\<close>, or the first of the first three lines whose
  length lies strictly between 10 and 200 (\<open>break\<close> after it).\<close>

definition title_part :: "string \<Rightarrow> sections \<Rightarrow> string list" where
  "title_part text ss =
     (if title ss \<noteq> [] then [''**'' @ pic_page @ '' Title:** '' @ title ss]
      else (case find (\<lambda>line. 10 < length line \<and> length line < 200) (take 3 (doc_lines text)) of
              None \<Rightarrow> []
            | Some line \<Rightarrow> [''**'' @ pic_page @ '' Title:** '' @ line]))"

definition authors_part :: "sections \<Rightarrow> string list" where
  "authors_part ss =
     (if authors ss \<noteq> [] then [''**'' @ pic_people @ '' Authors:** '' @ authors ss] else [])"

definition section_bullets :: "(section_name \<times> string) list" where
  "section_bullets =
     [(Introduction, ''Research Focus''), (Methodology, ''Method Used''),
      (Results, ''Key Findings''), (Conclusion, ''Conclusions'')]"

fun bullet_points :: "(section_name \<times> string) list \<Rightarrow> sections \<Rightarrow> string list" where
  "bullet_points [] ss = []"
| "bullet_points ((s, description) # bs) ss =
     (if bufs ss s \<noteq> []
      then (''**'' @ description @ '':** '' @ take 150 (join '' '' (take 3 (bufs ss s))) @ ''...'')
             # bullet_points bs ss
      else bullet_points bs ss)"

definition key_points :: "sections \<Rightarrow> string list" where
  "key_points ss =
     (if bufs ss Abstract \<noteq> []
      then [''**Abstract:** '' @ take 200 (join '' '' (take 5 (bufs ss Abstract))) @ ''...'']
      else [])
     @ bullet_points section_bullets ss"

text \<open>\<open>summary_parts\<close> as it stands when the test \<open>len(summary_parts) < 3\<close> is reached.\<close>

definition summary_parts :: "string \<Rightarrow> string list" where
  "summary_parts text =
     (let ss = analyze_paper_structure text;
          kp = key_points ss
      in title_part text ss @ authors_part ss
         @ (if kp \<noteq> [] then (''## '' @ pic_glass @ '' Key Points'') # map (\<lambda>p. pic_bullet @ '' '' @ p) kp
            else []))"

definition overview :: "string \<Rightarrow> string" where
  "overview text = (if 400 < length text then take 400 text @ ''...'' else text)"

definition generate_comprehensive_summary :: "string \<Rightarrow> string" where
  "generate_comprehensive_summary text =
     (let parts = summary_parts text;
          parts2 = (if length parts < 3
                    then parts @ [''## '' @ pic_book @ '' Document Content'', overview text]
                    else parts)
      in join [nl, nl] parts2)"

section \<open>Offline question answering\<close>

definition simple_questions :: "sections \<Rightarrow> (string \<times> string) list" where
  "simple_questions ss =
     [(''what is artificial intelligence'',
         ''AI refers to machines that can perform tasks typically requiring human intelligence.''),
      (''what is ai'',
         ''AI refers to machines that can perform tasks typically requiring human intelligence.''),
      (''what is machine learning'',
         ''Machine learning is a subset of AI that enables computers to learn without explicit programming.''),
      (''what is deep learning'',
         ''Deep learning uses neural networks with multiple layers to analyze various data types.''),
      (''what is neural network'',
         ''Neural networks are computing systems inspired by the human brain that recognize patterns.''),
      (''what is data science'',
         ''Data science combines statistics, programming, and domain knowledge to extract insights from data.''),
      (''what is computer vision'',
         ''Computer vision enables computers to interpret and understand visual information from the world.''),
      (''what is natural language processing'',
         ''NLP enables computers to understand, interpret, and generate human language.''),
      (''what is robotics'',
         ''Robotics involves designing and operating machines that can perform tasks automatically.''),
      (''who are the authors'',
         ''Authors: '' @ (if authors ss \<noteq> [] then authors ss else ''Not specified in the paper'')),
      (''what is the title'',
         ''Title: '' @ (if title ss \<noteq> [] then title ss else ''Not clearly specified'')),
      (''what is the abstract'',
         ''The abstract summarizes the paper'' @ [CHR 0x27]
           @ ''s main objectives, methods, results, and conclusions.'')]"

text \<open>The loop over \<open>simple_questions.items()\<close>: the first key found in the question
  returns.\<close>

fun first_simple :: "(string \<times> string) list \<Rightarrow> string \<Rightarrow> string option" where
  "first_simple [] ql = None"
| "first_simple ((simple_q, answer) # qs) ql =
     (if str_in simple_q ql then Some (''**'' @ pic_robot @ '' '' @ answer @ ''**'')
      else first_simple qs ql)"

definition clip :: "nat \<Rightarrow> string \<Rightarrow> string" where
  "clip n s = (if n < length s then take n s @ ''...'' else s)"

text \<open>
  The last branch of the \<open>elif\<close> chain (``what is'', ``what are'', ``define''). \<open>None\<close>
  stands for leaving the branch without a \<open>return\<close>.
\<close>

definition define_answer :: "string \<Rightarrow> string \<Rightarrow> string option" where
  "define_answer ql text =
     (if str_in ''what is'' ql \<or> str_in ''what are'' ql then
        (let term_start = (if str_in ''what is'' ql then str_find ''what is'' ql + 8
                           else str_find ''what are'' ql + 9);
             term = strip_chars ''? '' (slice_from term_start ql)
         in if term \<noteq> [] then
              Some (case find (\<lambda>line. str_in term (lower line) \<and> 20 < length line \<and> length line < 300)
                               (split_nl text) of
                      Some line \<Rightarrow> ''**'' @ pic_books @ '' '' @ clip 150 (strip line) @ ''**''
                    | None \<Rightarrow> ''**'' @ pic_question @ '' Information about '' @ [CHR 0x27] @ term
                               @ [CHR 0x27] @ '' not found in this paper**'')
            else None)
      else None)"

text \<open>The \<open>if\<close>/\<open>elif\<close> chain of paper-specific questions.\<close>

definition paper_answer :: "string \<Rightarrow> string \<Rightarrow> sections \<Rightarrow> string option" where
  "paper_answer ql text ss =
     (if any_in [''title'', ''what is the paper about'', ''name of paper''] ql then
        Some (''**'' @ pic_page @ '' ''
              @ (if title ss \<noteq> [] then title ss else ''Title not explicitly stated'') @ ''**'')
      else if any_in [''author'', ''who wrote'', ''who is the author''] ql then
        Some (''**'' @ pic_people @ '' ''
              @ (if authors ss \<noteq> [] then authors ss else ''Authors not specified'') @ ''**'')
      else if any_in [''abstract'', ''summary'', ''overview''] ql then
        Some (if bufs ss Abstract \<noteq> []
              then ''**'' @ pic_memo @ '' ''
                   @ (take 100 (join '' '' (take 3 (bufs ss Abstract))) @ ''...'') @ ''**''
              else ''**'' @ pic_memo @ '' Abstract section not found in this paper**'')
      else if any_in [''method'', ''methodology'', ''approach'', ''how did they''] ql then
        Some (if bufs ss Methodology \<noteq> []
              then ''**'' @ pic_microscope @ '' Research methodology details are in the methods section**''
              else ''**'' @ pic_microscope @ '' Methodology section not explicitly identified**'')
      else if any_in [''result'', ''finding'', ''outcome'', ''what did they find''] ql then
        Some (if bufs ss Results \<noteq> []
              then ''**'' @ pic_chart @ '' Key findings and results are detailed in the results section**''
              else ''**'' @ pic_chart @ '' Results section not explicitly identified**'')
      else if any_in [''conclusion'', ''conclude'', ''what was concluded''] ql then
        Some (if bufs ss Conclusion \<noteq> []
              then ''**'' @ pic_bulb @ '' Conclusions summarize the research outcomes and implications**''
              else ''**'' @ pic_bulb @ '' Conclusion section not explicitly identified**'')
      else if any_in [''purpose'', ''goal'', ''objective'', ''why'', ''aim''] ql then
        Some (if bufs ss Introduction \<noteq> []
              then ''**'' @ pic_target @ '' Research objectives are outlined in the introduction section**''
              else ''**'' @ pic_target @ '' Research purpose described in the introduction**'')
      else if any_in [''what is'', ''what are'', ''define''] ql then define_answer ql text
      else None)"

text \<open>Everything that can return before the test on the number of words.\<close>

definition early_answer :: "string \<Rightarrow> string \<Rightarrow> sections \<Rightarrow> string option" where
  "early_answer ql text ss =
     (case first_simple (simple_questions ss) ql of
        Some a \<Rightarrow> Some a
      | None \<Rightarrow> paper_answer ql text ss)"

definition guidance :: string where
  "guidance = ''**'' @ pic_robot
     @ '' Please ask specific questions about this research paper'' @ [CHR 0x27]
     @ ''s content, methods, or findings**''"

definition not_found :: string where
  "not_found = ''**'' @ pic_question
     @ '' Specific answer not found in this paper. Try asking about the title, authors, methods, or results.**''"

text \<open>The keyword-based scan over the lines of the document, and the final fallback.\<close>

definition keyword_answer :: "string \<Rightarrow> string \<Rightarrow> string" where
  "keyword_answer ql text =
     (let keywords = filter (\<lambda>w. 3 < length w) (split_ws ql);
          relevant_lines =
            map strip
              (filter (\<lambda>line. any_in keywords (lower line)
                          \<and> 30 < length (strip line) \<and> length (strip line) < 200)
                 (split_nl text))
      in case relevant_lines of
           best_line # _ \<Rightarrow> ''**'' @ pic_glass @ '' '' @ clip 120 best_line @ ''**''
         | [] \<Rightarrow> not_found)"

definition answer_question_offline :: "string \<Rightarrow> string \<Rightarrow> string" where
  "answer_question_offline question text =
     (let question_lower = strip (lower question);
          ss = analyze_paper_structure text
      in case early_answer question_lower text ss of
           Some a \<Rightarrow> a
         | None \<Rightarrow>
             if length (split_ws question) \<le> 4 then guidance
             else keyword_answer question_lower text)"

section \<open>The upload page\<close>

text \<open>
  The session state of the page, and what the page shows. \<open>sections_st = None\<close> is the
  initial empty dictionary. The text extractors are external; the page is modelled from
  the extracted text on.
\<close>

record session_state =
  processed_text :: string
  summary :: string
  chat_history :: "(string \<times> string) list"
  sections_st :: "sections option"

datatype ui_event =
    Info string
  | Success string
  | Error string
  | Metric string nat
  | Status string string
  | Detected string nat
  | Preview string

definition section_keys :: "(string \<times> section_name) list" where
  "section_keys =
     [(''abstract'', Abstract), (''introduction'', Introduction), (''methodology'', Methodology),
      (''results'', Results), (''discussion'', Discussion), (''conclusion'', Conclusion),
      (''references'', References)]"

text \<open>
  The entries of \<open>sections\<close> with their length, in the order of the dictionary. The
  page lists every non-empty entry (\<open>Detected\<close>: its key, shown in upper case, and
  its length).
\<close>

definition entry_sizes :: "sections \<Rightarrow> (string \<times> nat) list" where
  "entry_sizes ss =
     (''title'', length (title ss)) # (''authors'', length (authors ss))
       # map (\<lambda>(k, s). (k, length (bufs ss s))) section_keys"

definition upload_and_analyze ::
  "session_state \<Rightarrow> string \<Rightarrow> string \<Rightarrow> string \<Rightarrow> session_state \<times> ui_event list" where
  "upload_and_analyze st name type text =
     (let info = Info (pic_folder @ '' **File:** '' @ name @ '' | **Type:** '' @ type)
      in if text \<noteq> [] \<and> 100 < length (strip text) then
           (let ss = analyze_paper_structure text;
                st2 = st\<lparr>processed_text := text, sections_st := Some ss\<rparr>;
                found = filter (\<lambda>(k, n). 0 < n) (entry_sizes ss)
            in (st2,
                [info,
                 Success (pic_check @ '' Document processed successfully!''),
                 Metric ''Characters'' (length text),
                 Metric ''Words'' (length (split_ws text)),
                 Metric ''Sections Found'' (length found),
                 Status ''Status'' (''Ready '' @ pic_check)]
                @ map (\<lambda>(k, n). Detected k n) found
                @ [Preview (if 1500 < length text then take 1500 text @ ''...'' else text)]))
         else
           (st, [info, Error (pic_cross @ '' Could not extract sufficient text. Please try another file.'')]))"

text \<open>
  Every phrase that one of the branches before the word-count test looks for in the
  lowercased question: the canned questions and the keywords of the \<open>elif\<close> chain.
\<close>

definition trigger_phrases :: "string list" where
  "trigger_phrases =
     map fst (simple_questions empty_sections)
     @ [''title'', ''what is the paper about'', ''name of paper'',
        ''author'', ''who wrote'', ''who is the author'',
        ''abstract'', ''summary'', ''overview'',
        ''method'', ''methodology'', ''approach'', ''how did they'',
        ''result'', ''finding'', ''outcome'', ''what did they find'',
        ''conclusion'', ''conclude'', ''what was concluded'',
        ''purpose'', ''goal'', ''objective'', ''why'', ''aim'',
        ''what is'', ''what are'', ''define'']"

section \<open>Properties of the segmentation loop\<close>

lemma add_content_title [simp]: "title (add_content cur line ss) = title ss"
  by (simp add: add_content_def split: option.splits)

lemma add_content_authors [simp]: "authors (add_content cur line ss) = authors ss"
  by (simp add: add_content_def split: option.splits)

lemma add_content_bufs:
  "bufs (add_content cur line ss) s =
     (if cur = Some s \<and> 20 < length line \<and> length (bufs ss s) < 50 then bufs ss s @ [line]
      else bufs ss s)"
  by (auto simp: add_content_def split: option.splits)

lemma step_current:
  "current_section (step i line st) = scan_patterns section_patterns line (current_section st)"
  by (simp add: step_def Let_def)

lemma step_title:
  "title (secs (step i line st)) = (if title_branch i line then line else title (secs st))"
  by (simp add: step_def Let_def)

lemma step_authors:
  "authors (secs (step i line st)) = (if authors_branch i line then line else authors (secs st))"
  by (simp add: step_def Let_def authors_branch_def)

lemma step_bufs:
  "bufs (secs (step i line st)) s =
     (if scan_patterns section_patterns line (current_section st) = Some s
         \<and> 20 < length line \<and> length (bufs (secs st) s) < 50
      then bufs (secs st) s @ [line] else bufs (secs st) s)"
  by (simp add: step_def Let_def add_content_bufs)

lemma run_lines_capped:
  "length (bufs (secs st) s) \<le> 50 \<Longrightarrow> length (bufs (secs (run_lines i ls st)) s) \<le> 50"
proof (induction ls arbitrary: i st)
  case Nil
  then show ?case by simp
next
  case (Cons l ls)
  have "length (bufs (secs (step i l st)) s) \<le> 50"
    using Cons.prems by (simp add: step_bufs)
  then show ?case using Cons.IH by simp
qed

text \<open>
  C2. Whatever the input text, each of the seven line buffers returned by
  \<open>analyze_paper_structure\<close> holds at most 50 lines.
\<close>

theorem section_buffers_capped:
  "length (bufs (analyze_paper_structure text) s) \<le> 50"
  unfolding analyze_paper_structure_def
  by (rule run_lines_capped) (simp add: init_state_def empty_sections_def)

lemma run_lines_long:
  "\<forall>l \<in> set (bufs (secs st) s). 20 < length l \<Longrightarrow>
   \<forall>l \<in> set (bufs (secs (run_lines i ls st)) s). 20 < length l"
proof (induction ls arbitrary: i st)
  case Nil
  then show ?case by simp
next
  case (Cons l ls)
  have "\<forall>x \<in> set (bufs (secs (step i l st)) s). 20 < length x"
    using Cons.prems by (simp add: step_bufs)
  then show ?case using Cons.IH by simp
qed

lemma scan_patterns_first:
  "length line < 150 \<Longrightarrow>
   scan_patterns ps line cur =
     (case filter (\<lambda>(s, pat). any_in pat (lower line)) ps of
        [] \<Rightarrow> cur | (s, pat) # _ \<Rightarrow> Some s)"
  by (induction ps) auto

lemma scan_patterns_None:
  "scan_patterns ps line cur =
     (case scan_patterns ps line None of None \<Rightarrow> cur | Some s \<Rightarrow> Some s)"
  by (induction ps) auto

text \<open>
  C1, amended. For a line shorter than 150 in which at least one of the seven patterns
  is found, \<open>current_section\<close> after the line is the first section, in the order of
  \<open>section_patterns\<close>, whose pattern is found.
\<close>

theorem first_matching_pattern_wins:
  assumes "length line < 150" and "matching_sections line \<noteq> []"
  shows "current_section (step i line st) = Some (hd (matching_sections line))"
proof -
  let ?f = "filter (\<lambda>(s, pat). any_in pat (lower line)) section_patterns"
  from assms(2) obtain s pat rest where f: "?f = (s, pat) # rest"
    by (cases ?f) (auto simp: matching_sections_def)
  then have "hd (matching_sections line) = s"
    by (simp add: matching_sections_def)
  moreover have "scan_patterns section_patterns line (current_section st) = Some s"
    using assms(1) f by (simp add: scan_patterns_first)
  ultimately show ?thesis by (simp add: step_current)
qed

lemma run_lines_append:
  "run_lines i (xs @ ys) st = run_lines (i + length xs) ys (run_lines i xs st)"
  by (induction xs arbitrary: i st) auto

lemma run_lines_title:
  "title (secs (run_lines i ls st)) =
     (case ls of [] \<Rightarrow> title (secs st)
      | l # _ \<Rightarrow> if title_branch i l then l else title (secs st))"
proof (induction ls arbitrary: i st)
  case Nil
  then show ?case by simp
next
  case (Cons l ls)
  show ?case
    by (simp add: Cons.IH step_title title_branch_def split: list.splits)
qed

lemma enumerate_Cons: "enumerate i (l # ls) = (i, l) # enumerate (Suc i) ls"
  by simp

lemma run_lines_authors:
  "authors (secs (run_lines i ls st)) =
     (case filter (\<lambda>(j, l). authors_branch j l) (enumerate i ls) of
        [] \<Rightarrow> authors (secs st) | xs \<Rightarrow> snd (last xs))"
proof (induction ls arbitrary: i st)
  case Nil
  then show ?case by simp
next
  case (Cons l ls)
  show ?case
    by (simp add: Cons.IH step_authors split: list.splits)
qed


text \<open>
  C1, as stated, fails: the scan leaves the loop at the first pattern found. The line
  below contains ``summary'', which both the abstract and the conclusion pattern look
  for; the scan selects the abstract section, the first of the two, and the line is
  stored there.
\<close>

theorem last_matching_pattern_counterexample:
  "length ''Summary of the main points'' < 150
   \<and> matching_sections ''Summary of the main points'' = [Abstract, Conclusion]
   \<and> current_section (step 0 ''Summary of the main points'' init_state) = Some Abstract
   \<and> current_section (step 0 ''Summary of the main points'' init_state)
       \<noteq> Some (last (matching_sections ''Summary of the main points''))
   \<and> bufs (analyze_paper_structure ''Summary of the main points'') Abstract
       = [''Summary of the main points'']
   \<and> bufs (analyze_paper_structure ''Summary of the main points'') Conclusion = []"
  by code_simp

theorem first_matching_pattern_wins_witness:
  "length ''Summary of experiment data'' < 150
   \<and> matching_sections ''Summary of experiment data'' \<noteq> []
   \<and> current_section (step 2 ''Summary of experiment data'' init_state) = Some Abstract"
proof -
  have a: "length ''Summary of experiment data'' < 150" by simp
  have b: "matching_sections ''Summary of experiment data''
             = [Abstract, Methodology, Results, Conclusion]"
    by code_simp
  have c: "matching_sections ''Summary of experiment data'' \<noteq> []"
    by (simp add: b)
  from first_matching_pattern_wins [OF a c, of 2 init_state] a b c show ?thesis
    by simp
qed

text \<open>
  C3, as stated, fails for the authors: every line of index below 5 with an academic
  indicator assigns \<open>sections['authors']\<close> again. Here two lines do, and the second
  overwrites the first.
\<close>

theorem authors_assigned_once_counterexample:
  "\<not> length (authors_assignments (doc_lines
        (''A Study of Shade Plants'' @ [nl] @ ''University of A'' @ [nl] @ ''Department of B''))) \<le> 1
   \<and> authors (analyze_paper_structure (''A Study of Shade Plants'' @ [nl] @ ''University of A''))
       = ''University of A''
   \<and> authors (analyze_paper_structure
        (''A Study of Shade Plants'' @ [nl] @ ''University of A'' @ [nl] @ ''Department of B''))
       = ''Department of B''"
  by code_simp

lemma title_filter_Suc:
  "filter (\<lambda>(i, l). title_branch i l) (enumerate (Suc n) ls) = []"
  by (auto simp: filter_empty_conv in_set_enumerate_eq title_branch_def)

lemma title_assignments_cases:
  "title_assignments ls =
     (case ls of [] \<Rightarrow> [] | l # _ \<Rightarrow> if title_branch 0 l then [(0, l)] else [])"
  by (cases ls) (simp_all add: title_assignments_def title_filter_Suc)

lemma authors_filter_late:
  "5 \<le> n \<Longrightarrow> filter (\<lambda>(i, l). authors_branch i l) (enumerate n ls) = []"
  by (auto simp: filter_empty_conv in_set_enumerate_eq authors_branch_def)

lemma authors_assignments_take:
  "authors_assignments ls = filter (\<lambda>(i, l). authors_branch i l) (enumerate 0 (take 5 ls))"
proof -
  have "enumerate 0 ls = enumerate 0 (take 5 ls) @ enumerate (length (take 5 ls)) (drop 5 ls)"
    by (metis add_0 append_take_drop_id enumerate_append_eq)
  moreover have "filter (\<lambda>(i, l). authors_branch i l) (enumerate (length (take 5 ls)) (drop 5 ls)) = []"
  proof (cases "5 \<le> length ls")
    case True
    then show ?thesis by (simp add: authors_filter_late)
  next
    case False
    then show ?thesis by simp
  qed
  ultimately show ?thesis by (simp add: authors_assignments_def)
qed

lemma authors_assignments_length: "length (authors_assignments ls) \<le> 5"
proof -
  have "length (authors_assignments ls) \<le> length (enumerate 0 (take 5 ls))"
    unfolding authors_assignments_take by (rule length_filter_le)
  then show ?thesis by simp
qed

text \<open>
  C3, amended. \<open>sections['title']\<close> is assigned at most once, only from line 0 and only
  when its length lies strictly between 10 and 200. \<open>sections['authors']\<close> is assigned
  at most five times, only from lines of index below 5 that contain an academic
  indicator; the value returned is the last such line.
\<close>

theorem title_and_authors_assignments:
  "length (title_assignments (doc_lines text)) \<le> 1
   \<and> (\<forall>(i, l) \<in> set (title_assignments (doc_lines text)).
         i = 0 \<and> 10 < length l \<and> length l < 200)
   \<and> length (authors_assignments (doc_lines text)) \<le> 5
   \<and> (\<forall>(i, l) \<in> set (authors_assignments (doc_lines text)).
         i < 5 \<and> any_in indicators (lower l))
   \<and> title (analyze_paper_structure text)
       = (case title_assignments (doc_lines text) of [] \<Rightarrow> [] | (i, l) # _ \<Rightarrow> l)
   \<and> authors (analyze_paper_structure text)
       = (case authors_assignments (doc_lines text) of [] \<Rightarrow> [] | xs \<Rightarrow> snd (last xs))"
proof -
  let ?ls = "doc_lines text"
  have t1: "length (title_assignments ?ls) \<le> 1"
    by (simp add: title_assignments_cases split: list.splits)
  have t2: "\<forall>(i, l) \<in> set (title_assignments ?ls). i = 0 \<and> 10 < length l \<and> length l < 200"
    by (auto simp: title_assignments_def title_branch_def)
  have a2: "\<forall>(i, l) \<in> set (authors_assignments ?ls). i < 5 \<and> any_in indicators (lower l)"
    by (auto simp: authors_assignments_def authors_branch_def)
  have t3: "title (analyze_paper_structure text)
       = (case title_assignments ?ls of [] \<Rightarrow> [] | (i, l) # _ \<Rightarrow> l)"
    by (simp add: analyze_paper_structure_def run_lines_title title_assignments_cases
          init_state_def empty_sections_def split: list.splits)
  have a3: "authors (analyze_paper_structure text)
       = (case authors_assignments ?ls of [] \<Rightarrow> [] | xs \<Rightarrow> snd (last xs))"
    by (simp add: analyze_paper_structure_def run_lines_authors authors_assignments_def
          init_state_def empty_sections_def split: list.splits)
  from t1 t2 authors_assignments_length a2 t3 a3 show ?thesis by blast
qed

theorem title_and_authors_assignments_witness:
  "title (analyze_paper_structure
      (''A Study of Shade Plants'' @ [nl] @ ''University of A'' @ [nl] @ ''Department of B''))
     = ''A Study of Shade Plants''
   \<and> authors (analyze_paper_structure
      (''A Study of Shade Plants'' @ [nl] @ ''University of A'' @ [nl] @ ''Department of B''))
     = ''Department of B''
   \<and> length (authors_assignments (doc_lines
      (''A Study of Shade Plants'' @ [nl] @ ''University of A'' @ [nl] @ ''Department of B''))) = 2"
proof -
  let ?t = "''A Study of Shade Plants'' @ [nl] @ ''University of A'' @ [nl] @ ''Department of B''"
  have a: "authors_assignments (doc_lines ?t) = [(1, ''University of A''), (2, ''Department of B'')]"
    by code_simp
  have b: "title_assignments (doc_lines ?t) = [(0, ''A Study of Shade Plants'')]"
    by code_simp
  from title_and_authors_assignments [of ?t] a b show ?thesis by simp
qed

lemma scan_patterns_no_match:
  "filter (\<lambda>(s, pat). any_in pat (lower line)) ps = [] \<Longrightarrow> scan_patterns ps line cur = cur"
  by (induction ps) (auto split: if_splits)

lemma scan_patterns_long_line:
  "\<not> length line < 150 \<Longrightarrow> scan_patterns ps line cur = cur"
  by (induction ps) auto

lemma scan_unmatched:
  "\<not> (length line < 150 \<and> matching_sections line \<noteq> []) \<Longrightarrow>
   scan_patterns section_patterns line cur = cur"
  by (cases "length line < 150")
     (auto simp: matching_sections_def scan_patterns_no_match scan_patterns_long_line)

lemma run_lines_content:
  "current_section st = Some s \<Longrightarrow>
   \<forall>l \<in> set ls. 20 < length l \<and> matching_sections l = [] \<Longrightarrow>
   length (bufs (secs st) s) \<le> 50 \<Longrightarrow>
   bufs (secs (run_lines i ls st)) s = take 50 (bufs (secs st) s @ ls)"
proof (induction ls arbitrary: i st)
  case Nil
  then show ?case by simp
next
  case (Cons l ls)
  have sc: "scan_patterns section_patterns l (current_section st) = Some s"
    using Cons.prems(1,2) by (simp add: scan_unmatched)
  have cur: "current_section (step i l st) = Some s"
    using sc by (simp add: step_current)
  have len: "20 < length l" using Cons.prems(2) by simp
  have rest: "\<forall>x \<in> set ls. 20 < length x \<and> matching_sections x = []"
    using Cons.prems(2) by simp
  show ?case
  proof (cases "length (bufs (secs st) s) < 50")
    case True
    then have b: "bufs (secs (step i l st)) s = bufs (secs st) s @ [l]"
      using sc len by (simp add: step_bufs)
    then have "length (bufs (secs (step i l st)) s) \<le> 50" using True by simp
    from Cons.IH [OF cur rest this] b show ?thesis by simp
  next
    case False
    then have b: "bufs (secs (step i l st)) s = bufs (secs st) s"
      by (simp add: step_bufs)
    then have "length (bufs (secs (step i l st)) s) \<le> 50" using Cons.prems(3) by simp
    from Cons.IH [OF cur rest this] b False Cons.prems(3) show ?thesis by simp
  qed
qed

lemma scan_Abstract_heading: "scan_patterns section_patterns ''Abstract'' cur = Some Abstract"
  by (simp add: section_patterns_def) code_simp

text \<open>
  C4. For a document whose non-empty trimmed lines are the line ``Abstract'' followed
  by more than five content lines, each longer than 20 characters and containing none
  of the section patterns, \<open>sections['abstract']\<close> is exactly the content lines in their
  order, cut at 50 entries.
\<close>

theorem abstract_round_trip:
  assumes "doc_lines text = ''Abstract'' # content"
    and "5 < length content"
    and "\<forall>l \<in> set content. 20 < length l \<and> matching_sections l = []"
  shows "bufs (analyze_paper_structure text) Abstract = take 50 content"
proof -
  let ?st = "step 0 ''Abstract'' init_state"
  have cur: "current_section ?st = Some Abstract"
    by (simp add: step_current scan_Abstract_heading)
  have b: "bufs (secs ?st) Abstract = []"
    by (simp add: step_bufs init_state_def empty_sections_def)
  then have len: "length (bufs (secs ?st) Abstract) \<le> 50" by simp
  have "bufs (secs (run_lines 1 content ?st)) Abstract = take 50 (bufs (secs ?st) Abstract @ content)"
    using cur assms(3) len by (rule run_lines_content)
  then show ?thesis
    using assms(1) b by (simp add: analyze_paper_structure_def)
qed


theorem abstract_round_trip_witness:
  "doc_lines (''Abstract'' @ [nl] @ ''We grew plants in shade.'' @ [nl] @ ''Light was kept very low.''
       @ [nl] @ [nl] @ ''  Water came twice a week.'' @ [nl] @ ''Growth slowed in the dark.'' @ [nl]
       @ ''Some species kept growing.'' @ [nl] @ ''Their leaves are broad and thin.'' @ [nl])
     = ''Abstract'' # [''We grew plants in shade.'', ''Light was kept very low.'',
         ''Water came twice a week.'', ''Growth slowed in the dark.'',
         ''Some species kept growing.'', ''Their leaves are broad and thin.'']
   \<and> bufs (analyze_paper_structure
       (''Abstract'' @ [nl] @ ''We grew plants in shade.'' @ [nl] @ ''Light was kept very low.''
       @ [nl] @ [nl] @ ''  Water came twice a week.'' @ [nl] @ ''Growth slowed in the dark.'' @ [nl]
       @ ''Some species kept growing.'' @ [nl] @ ''Their leaves are broad and thin.'' @ [nl])) Abstract
     = [''We grew plants in shade.'', ''Light was kept very low.'',
         ''Water came twice a week.'', ''Growth slowed in the dark.'',
         ''Some species kept growing.'', ''Their leaves are broad and thin.'']"
proof -
  let ?t = "''Abstract'' @ [nl] @ ''We grew plants in shade.'' @ [nl] @ ''Light was kept very low.''
       @ [nl] @ [nl] @ ''  Water came twice a week.'' @ [nl] @ ''Growth slowed in the dark.'' @ [nl]
       @ ''Some species kept growing.'' @ [nl] @ ''Their leaves are broad and thin.'' @ [nl]"
  let ?c = "[''We grew plants in shade.'', ''Light was kept very low.'',
         ''Water came twice a week.'', ''Growth slowed in the dark.'',
         ''Some species kept growing.'', ''Their leaves are broad and thin.'']"
  have a: "doc_lines ?t = ''Abstract'' # ?c" by code_simp
  have b: "5 < length ?c" by simp
  have c: "\<forall>l \<in> set ?c. 20 < length l \<and> matching_sections l = []" by code_simp
  from abstract_round_trip [OF a b c] a show ?thesis by simp
qed

lemma run_lines_extends:
  "\<exists>ys. bufs (secs (run_lines i ls st)) s = bufs (secs st) s @ ys"
proof (induction ls arbitrary: i st)
  case Nil
  then show ?case by simp
next
  case (Cons l ls)
  obtain ys where "bufs (secs (run_lines (Suc i) ls (step i l st))) s = bufs (secs (step i l st)) s @ ys"
    using Cons.IH by blast
  then show ?case by (auto simp: step_bufs)
qed

lemma run_lines_not_selected:
  "bufs (secs st) s = [] \<Longrightarrow> current_section st \<noteq> Some s \<Longrightarrow>
   \<forall>l \<in> set ls. scan_patterns section_patterns l None \<noteq> Some s \<Longrightarrow>
   bufs (secs (run_lines i ls st)) s = [] \<and> current_section (run_lines i ls st) \<noteq> Some s"
proof (induction ls arbitrary: i st)
  case Nil
  then show ?case by simp
next
  case (Cons l ls)
  have "scan_patterns section_patterns l None \<noteq> Some s" using Cons.prems(3) by simp
  then have sc: "scan_patterns section_patterns l (current_section st) \<noteq> Some s"
    using Cons.prems(2)
    by (subst scan_patterns_None) (auto split: option.splits)
  then have cur: "current_section (step i l st) \<noteq> Some s" by (simp add: step_current)
  have b: "bufs (secs (step i l st)) s = []" using sc Cons.prems(1) by (simp add: step_bufs)
  have rest: "\<forall>x \<in> set ls. scan_patterns section_patterns x None \<noteq> Some s"
    using Cons.prems(3) by simp
  from Cons.IH [OF b cur rest] show ?case by simp
qed

lemma heading_first_entry:
  assumes "\<forall>l \<in> set pre. scan_patterns section_patterns l None \<noteq> Some s"
    and "scan_patterns section_patterns h None = Some s"
    and "20 < length h"
  shows "\<exists>rest. bufs (secs (run_lines 0 (pre @ h # post) init_state)) s = h # rest"
proof -
  let ?st = "run_lines 0 pre init_state"
  have e: "bufs (secs ?st) s = []"
    using assms(1) by (intro conjunct1 [OF run_lines_not_selected])
      (simp_all add: init_state_def empty_sections_def)
  have sc: "scan_patterns section_patterns h (current_section ?st) = Some s"
    using assms(2) by (subst scan_patterns_None) simp
  have b: "bufs (secs (step (length pre) h ?st)) s = [h]"
    using sc e assms(3) by (simp add: step_bufs)
  obtain ys where "bufs (secs (run_lines (Suc (length pre)) post (step (length pre) h ?st))) s
      = bufs (secs (step (length pre) h ?st)) s @ ys"
    using run_lines_extends by blast
  then show ?thesis using b by (simp add: run_lines_append)
qed

text \<open>
  C10, as stated, fails in its heading clause: being longer than 20 characters does not
  make a heading the first entry of its section. In the document below the title
  contains ``method'', selects the methodology section and is stored there first; the
  heading ``Materials and Methods of the Study'' is stored second.
\<close>

theorem heading_first_entry_counterexample:
  "scan_patterns section_patterns ''Materials and Methods of the Study'' None = Some Methodology
   \<and> 20 < length ''Materials and Methods of the Study''
   \<and> bufs (analyze_paper_structure
        (''A Method for Measuring Shade Growth in Plants'' @ [nl]
          @ ''Materials and Methods of the Study'')) Methodology
       = [''A Method for Measuring Shade Growth in Plants'',
          ''Materials and Methods of the Study'']
   \<and> hd (bufs (analyze_paper_structure
        (''A Method for Measuring Shade Growth in Plants'' @ [nl]
          @ ''Materials and Methods of the Study'')) Methodology)
       \<noteq> ''Materials and Methods of the Study''"
  by code_simp

text \<open>
  C10, amended. Every line stored in a section buffer is longer than 20 characters, so
  the line ``Abstract'' is never stored. A heading longer than 20 characters is stored as
  the first entry of the section it selects when no earlier line of the document has
  selected that section.
\<close>

theorem stored_lines_longer_than_20:
  "(\<forall>l \<in> set (bufs (analyze_paper_structure text) s). 20 < length l)
   \<and> ''Abstract'' \<notin> set (bufs (analyze_paper_structure text) s)
   \<and> (doc_lines text = pre @ h # post
        \<and> (\<forall>l \<in> set pre. scan_patterns section_patterns l None \<noteq> Some s)
        \<and> scan_patterns section_patterns h None = Some s
        \<and> 20 < length h
      \<longrightarrow> (\<exists>rest. bufs (analyze_paper_structure text) s = h # rest))"
proof -
  have long: "\<forall>l \<in> set (bufs (analyze_paper_structure text) s). 20 < length l"
    unfolding analyze_paper_structure_def
    by (rule run_lines_long) (simp add: init_state_def empty_sections_def)
  have short: "''Abstract'' \<notin> set (bufs (analyze_paper_structure text) s)"
  proof
    assume "''Abstract'' \<in> set (bufs (analyze_paper_structure text) s)"
    with long have "20 < length ''Abstract''" by blast
    then show False by simp
  qed
  have first: "doc_lines text = pre @ h # post
        \<and> (\<forall>l \<in> set pre. scan_patterns section_patterns l None \<noteq> Some s)
        \<and> scan_patterns section_patterns h None = Some s
        \<and> 20 < length h
      \<longrightarrow> (\<exists>rest. bufs (analyze_paper_structure text) s = h # rest)"
    using heading_first_entry [of pre s h post] by (auto simp: analyze_paper_structure_def)
  from long short first show ?thesis by blast
qed

theorem stored_lines_longer_than_20_witness:
  "bufs (analyze_paper_structure
      (''Abstract'' @ [nl] @ ''Materials and Methods of the Study'' @ [nl]
        @ ''We grew plants in shade.'')) Methodology
     = [''Materials and Methods of the Study'', ''We grew plants in shade.'']
   \<and> list_all (\<lambda>l. 20 < length l) (bufs (analyze_paper_structure
      (''Abstract'' @ [nl] @ ''Materials and Methods of the Study'' @ [nl]
        @ ''We grew plants in shade.'')) Methodology)
   \<and> ''Abstract'' \<notin> set (bufs (analyze_paper_structure
      (''Abstract'' @ [nl] @ ''Materials and Methods of the Study'' @ [nl]
        @ ''We grew plants in shade.'')) Methodology)
   \<and> (\<exists>rest. bufs (analyze_paper_structure
      (''Abstract'' @ [nl] @ ''Materials and Methods of the Study'' @ [nl]
        @ ''We grew plants in shade.'')) Methodology
       = ''Materials and Methods of the Study'' # rest)"
proof -
  let ?t = "''Abstract'' @ [nl] @ ''Materials and Methods of the Study'' @ [nl]
        @ ''We grew plants in shade.''"
  have v: "bufs (analyze_paper_structure ?t) Methodology
     = [''Materials and Methods of the Study'', ''We grew plants in shade.'']"
    by code_simp
  have a: "doc_lines ?t = [''Abstract''] @ ''Materials and Methods of the Study''
             # [''We grew plants in shade.'']"
    by code_simp
  have b: "\<forall>l \<in> set [''Abstract'']. scan_patterns section_patterns l None \<noteq> Some Methodology"
    by code_simp
  have c: "scan_patterns section_patterns ''Materials and Methods of the Study'' None
             = Some Methodology"
    by code_simp
  have d: "20 < length ''Materials and Methods of the Study''" by simp
  from stored_lines_longer_than_20 [of ?t Methodology "[''Abstract'']"
      "''Materials and Methods of the Study''" "[''We grew plants in shade.'']"] a b c d v
  show ?thesis unfolding list_all_iff by blast
qed

lemma run_lines_no_section:
  "current_section st = None \<Longrightarrow>
   \<forall>l \<in> set ls. \<not> (length l < 150 \<and> matching_sections l \<noteq> []) \<Longrightarrow>
   bufs (secs (run_lines i ls st)) s = bufs (secs st) s"
proof (induction ls arbitrary: i st)
  case Nil
  then show ?case by simp
next
  case (Cons l ls)
  have sc: "scan_patterns section_patterns l (current_section st) = None"
    using Cons.prems by (simp add: scan_unmatched)
  then have cur: "current_section (step i l st) = None" by (simp add: step_current)
  have b: "bufs (secs (step i l st)) s = bufs (secs st) s" using sc by (simp add: step_bufs)
  have rest: "\<forall>x \<in> set ls. \<not> (length x < 150 \<and> matching_sections x \<noteq> [])"
    using Cons.prems(2) by simp
  from Cons.IH [OF cur rest] b show ?case by simp
qed

lemma no_section_buffers_empty:
  "\<forall>l \<in> set (doc_lines text). \<not> (length l < 150 \<and> matching_sections l \<noteq> []) \<Longrightarrow>
   bufs (analyze_paper_structure text) s = []"
  by (simp add: analyze_paper_structure_def run_lines_no_section init_state_def empty_sections_def)

lemma title_part_length: "length (title_part text ss) \<le> 1"
  by (simp add: title_part_def split: option.splits)

lemma authors_part_length: "length (authors_part ss) \<le> 1"
  by (simp add: authors_part_def)

text \<open>
  C5. When no line of the document that is shorter than 150 contains a section
  pattern, fewer than three summary parts exist when the sparse-structure test is
  reached, and the summary ends with the ``Document Content'' heading followed by the
  first 400 characters of the raw text (with ``...'' when the text is longer).
\<close>

theorem sparse_summary_falls_back:
  assumes "\<forall>l \<in> set (doc_lines text). \<not> (length l < 150 \<and> matching_sections l \<noteq> [])"
  shows "length (summary_parts text) < 3
    \<and> generate_comprehensive_summary text
        = join [nl, nl] (summary_parts text
            @ [''## '' @ pic_book @ '' Document Content'',
               if 400 < length text then take 400 text @ ''...'' else text])"
proof -
  have kp: "key_points (analyze_paper_structure text) = []"
    by (simp add: key_points_def section_bullets_def no_section_buffers_empty [OF assms])
  have "summary_parts text
          = title_part text (analyze_paper_structure text) @ authors_part (analyze_paper_structure text)"
    by (simp add: summary_parts_def Let_def kp)
  moreover have "length (title_part text (analyze_paper_structure text)) \<le> 1"
    by (rule title_part_length)
  moreover have "length (authors_part (analyze_paper_structure text)) \<le> 1"
    by (rule authors_part_length)
  ultimately have "length (summary_parts text) \<le> 2" by simp
  then have len: "length (summary_parts text) < 3" by simp
  then show ?thesis
    by (simp add: generate_comprehensive_summary_def Let_def overview_def)
qed

theorem sparse_summary_falls_back_witness:
  "doc_lines (''Notes on plants'' @ [nl] @ ''They grow in shade.'')
     = [''Notes on plants'', ''They grow in shade.'']
   \<and> matching_sections ''Notes on plants'' = []
   \<and> matching_sections ''They grow in shade.'' = []
   \<and> generate_comprehensive_summary (''Notes on plants'' @ [nl] @ ''They grow in shade.'')
       = ''**'' @ pic_page @ '' Title:** Notes on plants'' @ [nl, nl]
         @ ''## '' @ pic_book @ '' Document Content'' @ [nl, nl]
         @ ''Notes on plants'' @ [nl] @ ''They grow in shade.''"
proof -
  let ?t = "''Notes on plants'' @ [nl] @ ''They grow in shade.''"
  have d: "doc_lines ?t = [''Notes on plants'', ''They grow in shade.'']"
    by code_simp
  have m1: "matching_sections ''Notes on plants'' = []" by code_simp
  have m2: "matching_sections ''They grow in shade.'' = []" by code_simp
  have a: "\<forall>l \<in> set (doc_lines ?t). \<not> (length l < 150 \<and> matching_sections l \<noteq> [])"
    unfolding d by (simp add: m1 m2)
  have p: "summary_parts ?t = [''**'' @ pic_page @ '' Title:** Notes on plants'']"
    by code_simp
  from sparse_summary_falls_back [OF a] d m1 m2 p show ?thesis by simp
qed

section \<open>Properties of question answering and of the upload page\<close>

lemma lower_what_is_AI: "strip (lower ''what is AI'') = ''what is ai''"
  by code_simp

lemma not_in_what_is_ai: "\<not> str_in ''what is artificial intelligence'' ''what is ai''"
  by code_simp

lemma in_what_is_ai: "str_in ''what is ai'' ''what is ai''"
  by code_simp

lemma first_simple_what_is_ai:
  "first_simple (simple_questions ss) ''what is ai''
     = Some (''**'' @ pic_robot
         @ '' AI refers to machines that can perform tasks typically requiring human intelligence.**'')"
  by (simp add: simple_questions_def not_in_what_is_ai in_what_is_ai del: str_in.simps)

text \<open>
  C6. For every document, the question ``what is AI'' is answered with the canned
  definition of AI; in particular the answer is the same for any two documents.
\<close>

theorem canned_ai_answer:
  "answer_question_offline ''what is AI'' text
     = ''**'' @ pic_robot
       @ '' AI refers to machines that can perform tasks typically requiring human intelligence.**''
   \<and> answer_question_offline ''what is AI'' text1 = answer_question_offline ''what is AI'' text2"
proof -
  have "\<And>t. answer_question_offline ''what is AI'' t
     = ''**'' @ pic_robot
       @ '' AI refers to machines that can perform tasks typically requiring human intelligence.**''"
    unfolding answer_question_offline_def Let_def early_answer_def lower_what_is_AI
      first_simple_what_is_ai
    by simp
  then show ?thesis by simp
qed

theorem canned_ai_answer_witness:
  "answer_question_offline ''what is AI'' ''Deep Learning Survey''
     = ''**'' @ pic_robot
       @ '' AI refers to machines that can perform tasks typically requiring human intelligence.**''
   \<and> answer_question_offline ''what is AI'' ''Deep Learning Survey''
       = answer_question_offline ''what is AI'' []"
  by (rule canned_ai_answer [of "''Deep Learning Survey''" "''Deep Learning Survey''" "[]"])

text \<open>
  C7, as stated, fails: a question of three words that contains a canned question, a
  category keyword or a definition phrase is answered by that earlier branch. ``who
  wrote this'' gets the authors answer, not the guidance text.
\<close>

theorem three_word_guidance_counterexample:
  "length (split_ws ''who wrote this'') = 3
   \<and> answer_question_offline ''who wrote this'' []
       = ''**'' @ pic_people @ '' Authors not specified**''
   \<and> answer_question_offline ''who wrote this'' [] \<noteq> guidance"
  by code_simp

lemma first_simple_None:
  "\<not> any_in (map fst qs) ql \<Longrightarrow> first_simple qs ql = None"
  by (induction qs) (auto simp: any_in_def)

lemma simple_questions_keys:
  "map fst (simple_questions ss) = map fst (simple_questions empty_sections)"
  by (simp add: simple_questions_def)

lemma any_in_append: "any_in (xs @ ys) s = (any_in xs s \<or> any_in ys s)"
  by (simp add: any_in_def)

lemma any_in_Cons: "any_in (x # xs) s = (str_in x s \<or> any_in xs s)"
  by (simp add: any_in_def)

lemma any_in_Nil: "any_in [] s = False"
  by (simp add: any_in_def)

lemma early_answer_None:
  assumes "\<not> any_in trigger_phrases ql"
  shows "early_answer ql text ss = None"
proof -
  have k: "\<not> any_in (map fst (simple_questions ss)) ql"
    using assms unfolding trigger_phrases_def any_in_append simple_questions_keys [of ss] by blast
  have p: "paper_answer ql text ss = None"
    using assms unfolding trigger_phrases_def any_in_append paper_answer_def
    by (simp add: any_in_Cons any_in_Nil del: str_in.simps)
  show ?thesis by (simp add: early_answer_def first_simple_None [OF k] p)
qed

text \<open>
  C7, amended. A question of three words never reaches the keyword-based scan of the
  document: the answer is that of the first canned question, category keyword group or
  definition branch that returns, and the guidance text when none returns. None returns,
  in particular, when the lowercased question contains none of \<open>trigger_phrases\<close>: no
  canned question, no category keyword, and none of ``what is'', ``what are'', ``define''.
\<close>

theorem three_word_question:
  assumes "length (split_ws question) = 3"
  shows "answer_question_offline question text
           = (case early_answer (strip (lower question)) text (analyze_paper_structure text) of
                Some a \<Rightarrow> a | None \<Rightarrow> guidance)
         \<and> (\<not> any_in trigger_phrases (strip (lower question))
              \<longrightarrow> answer_question_offline question text = guidance)"
  using assms
  by (auto simp: answer_question_offline_def Let_def early_answer_None split: option.splits)

theorem three_word_question_witness:
  "length (split_ws ''hello there friend'') = 3
   \<and> \<not> any_in trigger_phrases (strip (lower ''hello there friend''))
   \<and> answer_question_offline ''hello there friend'' ''Deep Learning Survey'' = guidance"
proof -
  have a: "length (split_ws ''hello there friend'') = 3" by code_simp
  have b: "\<not> any_in trigger_phrases (strip (lower ''hello there friend''))" by code_simp
  from three_word_question [OF a, of "''Deep Learning Survey''"] a b show ?thesis by blast
qed

text \<open>
  C8. Two runs of \<open>analyze_paper_structure\<close> on identical text return identical
  mappings: equal title, equal authors and equal line lists. A second upload of the
  same text leaves the stored sections as the first upload left them.
\<close>

theorem segmentation_deterministic:
  assumes "text1 = text2"
  shows "analyze_paper_structure text1 = analyze_paper_structure text2
    \<and> title (analyze_paper_structure text1) = title (analyze_paper_structure text2)
    \<and> authors (analyze_paper_structure text1) = authors (analyze_paper_structure text2)
    \<and> bufs (analyze_paper_structure text1) s = bufs (analyze_paper_structure text2) s
    \<and> sections_st (fst (upload_and_analyze (fst (upload_and_analyze st name type text1)) name type text2))
        = sections_st (fst (upload_and_analyze st name type text1))"
  using assms by (simp add: upload_and_analyze_def Let_def)

theorem segmentation_deterministic_witness:
  "title (analyze_paper_structure ''Deep Learning Survey'')
     = title (analyze_paper_structure ''Deep Learning Survey'')
   \<and> bufs (analyze_paper_structure ''Deep Learning Survey'') Abstract
     = bufs (analyze_paper_structure ''Deep Learning Survey'') Abstract"
  using segmentation_deterministic [of "''Deep Learning Survey''" "''Deep Learning Survey''" Abstract]
  by simp

text \<open>
  C9. When the extracted text is empty or its stripped length is at most 100, the
  upload page shows the error message asking for another file and leaves the session
  state as it was: the text is not stored and no structure analysis is stored.
\<close>

theorem insufficient_text_rejected:
  assumes "text = [] \<or> length (strip text) \<le> 100"
  shows "upload_and_analyze st name type text
           = (st, [Info (pic_folder @ '' **File:** '' @ name @ '' | **Type:** '' @ type),
                   Error (pic_cross
                     @ '' Could not extract sufficient text. Please try another file.'')])"
  using assms by (auto simp: upload_and_analyze_def Let_def)

theorem insufficient_text_rejected_witness:
  "length (strip ''  Deep Learning Survey  '') \<le> 100
   \<and> upload_and_analyze
        \<lparr>processed_text = [], summary = [], chat_history = [], sections_st = None\<rparr>
        ''a.txt'' ''text/plain'' ''  Deep Learning Survey  ''
       = (\<lparr>processed_text = [], summary = [], chat_history = [], sections_st = None\<rparr>,
          [Info (pic_folder @ '' **File:** a.txt | **Type:** text/plain''),
           Error (pic_cross
             @ '' Could not extract sufficient text. Please try another file.'')])"
proof -
  have a: "length (strip ''  Deep Learning Survey  '') \<le> 100" by code_simp
  then have b: "''  Deep Learning Survey  '' = [] \<or> length (strip ''  Deep Learning Survey  '') \<le> 100"
    by simp
  from insufficient_text_rejected [OF b] a show ?thesis by simp
qed

end
